theory Spec2Isabelle
  imports Complex_Main "HOL-Library.Word"
begin

unbundle bit_operations_syntax

section \<open>Face service (src/face\_service/app.py): the matching core\<close>

text \<open>
  The service is a Python module of pure request handlers over numpy arrays. The
  embedding below keeps the source's functions and names. Three conventions hold
  throughout:
  \<^item> a Python float (and a numpy float32 that takes part in arithmetic) is a \<open>real\<close>:
    arithmetic is exact, rounding and the non-finite values (infinities, NaN) of
    IEEE 754 are not modelled;
  \<^item> a float32 array at rest (the operand of \<open>tobytes\<close>, the result of
    \<open>np.frombuffer\<close>) is the list of its 32-bit patterns, read as reals by \<open>f32_val\<close>;
  \<^item> an exception is a value of type \<open>exn\<close>; a function that can raise returns
    \<open>exn + 'a\<close>, with \<open>Inl\<close> for the raise.
  The two external capabilities, \<open>cv2.imdecode\<close> and \<open>face_app.get\<close>, are parameters
  of the functions that call them.
\<close>

subsection \<open>Exceptions\<close>

datatype binascii_error = Incorrect_padding | Invalid_length

datatype exn =
    ValueError string         \<comment> \<open>\<open>raise ValueError(msg)\<close> in app.py\<close>
  | IndexError                \<comment> \<open>list index out of range\<close>
  | NonAsciiError             \<comment> \<open>base64: ValueError, the str holds a non-ASCII character\<close>
  | BinasciiError binascii_error  \<comment> \<open>\<open>binascii.Error\<close> of \<open>base64.b64decode\<close>\<close>
  | BufferSizeError           \<comment> \<open>np.frombuffer: ValueError, buffer size not a multiple of the element size\<close>
  | ShapeError nat nat        \<comment> \<open>np.dot: ValueError, shapes (n,) and (m,) not aligned\<close>
  | Cv2Error                  \<comment> \<open>an error raised inside \<open>cv2.imdecode\<close>\<close>

datatype detail = Text string | Str exn   \<comment> \<open>\<open>detail="..."\<close> and \<open>detail=str(e)\<close>\<close>

datatype http_error = HTTPException nat detail

subsection \<open>The standard library's base64\<close>

type_synonym byte = "8 word"

definition table_b2a_base64 :: string where
  "table_b2a_base64 = ''ABCDEFGHIJKLMNOPQRSTUVWXYZabcdefghijklmnopqrstuvwxyz0123456789+/''"

definition b2a :: "byte \<Rightarrow> char" where
  "b2a s = table_b2a_base64 ! unat s"

definition table_a2b_base64 :: "char \<Rightarrow> byte option" where
  "table_a2b_base64 c = map_of (zip table_b2a_base64 (map of_nat [0..<64])) c"

text \<open>
  \<open>base64.b64encode\<close>: three bytes become four characters of the alphabet; a final
  group of one or two bytes is padded with \<open>=\<close>.
\<close>

fun b64encode :: "byte list \<Rightarrow> string" where
  "b64encode [] = []"
| "b64encode [a] =
     [b2a (drop_bit 2 a), b2a (push_bit 4 (a AND 3)), CHR ''='', CHR ''='']"
| "b64encode [a, b] =
     [b2a (drop_bit 2 a), b2a (push_bit 4 (a AND 3) OR drop_bit 4 b),
      b2a (push_bit 2 (b AND 15)), CHR ''='']"
| "b64encode (a # b # c # bs) =
     [b2a (drop_bit 2 a), b2a (push_bit 4 (a AND 3) OR drop_bit 4 b),
      b2a (push_bit 2 (b AND 15) OR drop_bit 6 c), b2a (c AND 63)] @ b64encode bs"

text \<open>
  \<open>binascii.a2b_base64\<close> as \<open>base64.b64decode\<close> calls it (\<open>validate=False\<close>): one pass
  over the characters with the position \<open>quad_pos\<close> in the current group of four, the
  bits left over \<open>leftchar\<close>, and the count \<open>pads\<close> of padding characters seen in a
  row. Characters outside the alphabet are skipped. A padding character that completes a
  group ends the decoding (anything after it is ignored); input that ends inside a group
  is an error.
\<close>

fun a2b_base64 :: "nat \<Rightarrow> byte \<Rightarrow> nat \<Rightarrow> byte list \<Rightarrow> string \<Rightarrow> exn + byte list" where
  "a2b_base64 quad_pos leftchar pads out [] =
     (if quad_pos \<noteq> 0
      then (if quad_pos = 1 then Inl (BinasciiError Invalid_length)
            else Inl (BinasciiError Incorrect_padding))
      else Inr out)"
| "a2b_base64 quad_pos leftchar pads out (c # cs) =
     (if c = CHR ''='' then
        (if quad_pos \<ge> 2 \<and> quad_pos + (pads + 1) \<ge> 4 then Inr out
         else a2b_base64 quad_pos leftchar (if quad_pos \<ge> 2 then pads + 1 else pads) out cs)
      else
        (case table_a2b_base64 c of
           None \<Rightarrow> a2b_base64 quad_pos leftchar pads out cs
         | Some this_ch \<Rightarrow>
             (if quad_pos = 0 then a2b_base64 1 this_ch 0 out cs
              else if quad_pos = 1 then
                a2b_base64 2 (this_ch AND 15) 0
                  (out @ [push_bit 2 leftchar OR drop_bit 4 this_ch]) cs
              else if quad_pos = 2 then
                a2b_base64 3 (this_ch AND 3) 0
                  (out @ [push_bit 4 leftchar OR drop_bit 2 this_ch]) cs
              else
                a2b_base64 0 0 0 (out @ [push_bit 6 leftchar OR this_ch]) cs)))"

text \<open>
  \<open>base64.b64decode\<close> of a \<open>str\<close>: the string is first encoded as ASCII, which raises
  ValueError when a character is not ASCII.
\<close>

definition b64decode :: "string \<Rightarrow> exn + byte list" where
  "b64decode s =
     (if \<exists>c \<in> set s. 128 \<le> (of_char c :: nat) then Inl NonAsciiError
      else a2b_base64 0 0 0 [] s)"

subsection \<open>numpy: float32 buffers, norm, dot\<close>

type_synonym float32 = "32 word"

text \<open>
  The value of a float32 bit pattern (IEEE 754 binary32): sign, eight exponent bits,
  23 fraction bits; exponent 0 holds the subnormal numbers. The patterns with exponent
  255 (infinities and NaN) have no real value; they are read by the formula of the
  normal numbers, and lie outside what this embedding models.
\<close>

definition f32_val :: "float32 \<Rightarrow> real" where
  "f32_val w =
     (let n = unat w;
          frac = n mod 2 ^ 23;
          e = (n div 2 ^ 23) mod 2 ^ 8;
          sign = (if n div 2 ^ 31 = 1 then - 1 else 1);
          mant = (if e = 0 then frac else 2 ^ 23 + frac);
          ex = (if e = 0 then 1 else e)
      in sign * real mant * (if 150 \<le> ex then 2 ^ (ex - 150) else 1 / 2 ^ (150 - ex)))"

text \<open>\<open>ndarray.tobytes()\<close> of a float32 array: four bytes per element, little-endian.\<close>

definition f32_bytes :: "float32 \<Rightarrow> byte list" where
  "f32_bytes w = [ucast w, ucast (drop_bit 8 w), ucast (drop_bit 16 w), ucast (drop_bit 24 w)]"

definition tobytes :: "float32 list \<Rightarrow> byte list" where
  "tobytes emb = concat (map f32_bytes emb)"

text \<open>
  \<open>np.frombuffer(raw, dtype=np.float32)\<close>: raises ValueError unless the buffer size is
  a multiple of the element size; an empty buffer gives an empty array.
\<close>

fun f32_words :: "byte list \<Rightarrow> float32 list" where
  "f32_words (b0 # b1 # b2 # b3 # bs) =
     (ucast b0 OR push_bit 8 (ucast b1) OR push_bit 16 (ucast b2) OR push_bit 24 (ucast b3))
       # f32_words bs"
| "f32_words _ = []"

definition frombuffer_f32 :: "byte list \<Rightarrow> exn + float32 list" where
  "frombuffer_f32 raw =
     (if length raw mod 4 \<noteq> 0 then Inl BufferSizeError else Inr (f32_words raw))"

text \<open>\<open>np.linalg.norm\<close> of a vector and \<open>np.dot\<close> of two vectors.\<close>

definition linalg_norm :: "real list \<Rightarrow> real" where
  "linalg_norm v = sqrt (sum_list (map (\<lambda>x. x * x) v))"

definition np_dot :: "real list \<Rightarrow> real list \<Rightarrow> exn + real" where
  "np_dot a b =
     (if length a \<noteq> length b then Inl (ShapeError (length a) (length b))
      else Inr (sum_list (map2 (*) a b)))"

subsection \<open>Python strings and lists\<close>

definition isspace :: "char \<Rightarrow> bool" where
  "isspace c = (let n = (of_char c :: nat) in (9 \<le> n \<and> n \<le> 13) \<or> (28 \<le> n \<and> n \<le> 32) \<or> n = 133 \<or> n = 160)"

definition strip :: "string \<Rightarrow> string" where
  "strip s = rev (dropWhile isspace (rev (dropWhile isspace s)))"

definition startswith :: "string \<Rightarrow> string \<Rightarrow> bool" where
  "startswith s p = (take (length p) s = p)"

text \<open>\<open>s.split(",", 1)[1]\<close>: the text after the first comma; IndexError without a comma.\<close>

definition split_comma_1 :: "string \<Rightarrow> exn + string" where
  "split_comma_1 s =
     (case dropWhile (\<lambda>c. c \<noteq> CHR '','') s of [] \<Rightarrow> Inl IndexError | _ # rest \<Rightarrow> Inr rest)"

text \<open>
  \<open>list.sort(key=..., reverse=True)\<close>: CPython reverses the list, sorts it with its
  stable ascending sort, and reverses the result, so that elements with equal keys keep
  their order. \<open>sort_key\<close> is a stable ascending sort.
\<close>

definition sort_reverse :: "('a \<Rightarrow> real) \<Rightarrow> 'a list \<Rightarrow> 'a list" where
  "sort_reverse key xs = rev (sort_key key (rev xs))"

subsection \<open>app.py\<close>

definition DEFAULT_THRESHOLD :: real where
  "DEFAULT_THRESHOLD = 45 / 100"

definition decode_base64_image ::
  "(byte list \<Rightarrow> exn + 'img option) \<Rightarrow> string \<Rightarrow> exn + 'img" where
  "decode_base64_image imdecode data_url_or_b64 =
     (if data_url_or_b64 = [] then Inl (ValueError ''empty image'')
      else
        (case (let s = strip data_url_or_b64
               in if startswith s ''data:'' then split_comma_1 s else Inr s) of
           Inl e \<Rightarrow> Inl e
         | Inr s \<Rightarrow>
            (case b64decode s of
               Inl e \<Rightarrow> Inl e
             | Inr img_bytes \<Rightarrow>
                (case imdecode img_bytes of
                   Inl e \<Rightarrow> Inl e
                 | Inr None \<Rightarrow> Inl (ValueError ''invalid image bytes'')
                 | Inr (Some img) \<Rightarrow> Inr img))))"

text \<open>
  A detection of the external model: the bounding box \<open>(x1, y1, x2, y2)\<close> and the raw
  embedding, which may be absent (\<open>None\<close>).
\<close>

record face =
  bbox :: "real \<times> real \<times> real \<times> real"
  embedding :: "real list option"

definition area :: "face \<Rightarrow> real" where
  "area f = (case bbox f of (x1, y1, x2, y2) \<Rightarrow> (x2 - x1) * (y2 - y1))"

text \<open>The expression \<open>emb / (np.linalg.norm(emb) + 1e-9)\<close> of lines 46 and 60.\<close>

definition l2_normalize :: "real list \<Rightarrow> real list" where
  "l2_normalize emb = map (\<lambda>x. x / (linalg_norm emb + 1 / 10 ^ 9)) emb"

text \<open>Lines 35 to 41: the face whose embedding is used.\<close>

definition primary_face :: "face list \<Rightarrow> exn + face" where
  "primary_face faces =
     (if faces = [] then Inl (ValueError ''no face detected'')
      else (case sort_reverse area faces of [] \<Rightarrow> Inl IndexError | f # _ \<Rightarrow> Inr f))"

definition get_single_face_embedding :: "('img \<Rightarrow> face list) \<Rightarrow> 'img \<Rightarrow> exn + real list" where
  "get_single_face_embedding face_app_get img_bgr =
     (case primary_face (face_app_get img_bgr) of
        Inl e \<Rightarrow> Inl e
      | Inr f \<Rightarrow>
         (case embedding f of
            None \<Rightarrow> Inl (ValueError ''embedding empty'')
          | Some emb \<Rightarrow>
             (if length emb = 0 then Inl (ValueError ''embedding empty'')
              else Inr (l2_normalize emb))))"

text \<open>
  \<open>emb_to_b64\<close> receives a float32 array (its \<open>astype(np.float32)\<close> changes nothing),
  given here by its bit patterns.
\<close>

definition emb_to_b64 :: "float32 list \<Rightarrow> string" where
  "emb_to_b64 emb = b64encode (tobytes emb)"

definition b64_to_emb :: "string \<Rightarrow> exn + real list" where
  "b64_to_emb b64str =
     (case b64decode b64str of
        Inl e \<Rightarrow> Inl e
      | Inr raw \<Rightarrow>
         (case frombuffer_f32 raw of
            Inl e \<Rightarrow> Inl e
          | Inr emb \<Rightarrow> Inr (l2_normalize (map f32_val emb))))"

definition cosine_distance :: "real list \<Rightarrow> real list \<Rightarrow> exn + real" where
  "cosine_distance a b = (case np_dot a b of Inl e \<Rightarrow> Inl e | Inr sim \<Rightarrow> Inr (1 - sim))"

record verify_req =
  image_base64 :: string
  templates_b64 :: "string list"
  threshold :: "real option"

record verify_res =
  match :: bool
  best_distance :: real
  threshold_used :: real
  model :: string

text \<open>The loop of lines 115 to 119, from the current value of \<open>best\<close>.\<close>

fun verify_loop :: "real list \<Rightarrow> real \<Rightarrow> string list \<Rightarrow> exn + real" where
  "verify_loop probe best [] = Inr best"
| "verify_loop probe best (t # ts) =
     (case b64_to_emb t of
        Inl e \<Rightarrow> Inl e
      | Inr emb \<Rightarrow>
         (case cosine_distance probe emb of
            Inl e \<Rightarrow> Inl e
          | Inr d \<Rightarrow> verify_loop probe (if d < best then d else best) ts))"


text \<open>Lines 116 and 117: the distance between the probe and one template.\<close>

definition template_distance :: "real list \<Rightarrow> string \<Rightarrow> exn + real" where
  "template_distance probe t =
     (case b64_to_emb t of Inl e \<Rightarrow> Inl e | Inr emb \<Rightarrow> cosine_distance probe emb)"

definition verify ::
  "(byte list \<Rightarrow> exn + 'img option) \<Rightarrow> ('img \<Rightarrow> face list) \<Rightarrow> verify_req \<Rightarrow> http_error + verify_res" where
  "verify imdecode face_app_get req =
     (if templates_b64 req = [] then Inl (HTTPException 400 (Text ''no templates''))
      else
        (let thr = (case threshold req of Some t \<Rightarrow> t | None \<Rightarrow> DEFAULT_THRESHOLD) in
         case (case decode_base64_image imdecode (image_base64 req) of
                 Inl e \<Rightarrow> Inl e
               | Inr img \<Rightarrow>
                  (case get_single_face_embedding face_app_get img of
                     Inl e \<Rightarrow> Inl e
                   | Inr probe \<Rightarrow> verify_loop probe 999 (templates_b64 req))) of
           Inl e \<Rightarrow> Inl (HTTPException 400 (Str e))
         | Inr best \<Rightarrow>
             Inr \<lparr>match = best \<le> thr, best_distance = best, threshold_used = thr,
                  model = ''insightface/buffalo_l''\<rparr>))"

subsection \<open>Example inputs\<close>

text \<open>
  A stand-in image decoder (the image is its bytes), a stand-in detector that finds
  three faces of areas 100, 400 and 400, and three templates: the float32 vectors
  \<open>(1, 0)\<close>, \<open>(0, 1)\<close> and \<open>(0, 1)\<close> again.
\<close>

definition ex_imdecode :: "byte list \<Rightarrow> exn + byte list option" where
  "ex_imdecode bs = (if bs = [] then Inl Cv2Error else Inr (Some bs))"

definition ex_faces :: "face list" where
  "ex_faces =
     [\<lparr>bbox = (0, 0, 10, 10), embedding = Some [1, 0]\<rparr>,
      \<lparr>bbox = (5, 5, 25, 25), embedding = Some [3, 4]\<rparr>,
      \<lparr>bbox = (0, 0, 20, 20), embedding = Some [0, 1]\<rparr>]"

definition ex_face_app_get :: "byte list \<Rightarrow> face list" where
  "ex_face_app_get img = ex_faces"

definition ex_probe :: "real list" where
  "ex_probe = [3 / (5 + 1 / 10 ^ 9), 4 / (5 + 1 / 10 ^ 9)]"

definition ex_dx :: real where
  "ex_dx = 1 - 3 / (5 + 1 / 10 ^ 9) * (1 / (1 + 1 / 10 ^ 9))"

definition ex_dy :: real where
  "ex_dy = 1 - 4 / (5 + 1 / 10 ^ 9) * (1 / (1 + 1 / 10 ^ 9))"

definition ex_req :: verify_req where
  "ex_req = \<lparr>image_base64 = ''AAAA'',
             templates_b64 = [''AACAPwAAAAA='', ''AAAAAAAAgD8='', ''AAAAAAAAgD8=''],
             threshold = None\<rparr>"







text \<open>
  Requests with a template of six bytes (not a multiple of four) and with an empty
  template (zero floats) after a good one, and a request without templates whose image
  is not even base64.
\<close>

definition ex_six_req :: verify_req where
  "ex_six_req = \<lparr>image_base64 = ''AAAA'',
                 templates_b64 = [''AACAPwAAAAA='', ''AAAAAAAA''],
                 threshold = None\<rparr>"

definition ex_empty_template_req :: verify_req where
  "ex_empty_template_req = \<lparr>image_base64 = ''AAAA'',
                 templates_b64 = [''AACAPwAAAAA='', []],
                 threshold = None\<rparr>"

definition ex_no_templates_req :: verify_req where
  "ex_no_templates_req = \<lparr>image_base64 = ''A'', templates_b64 = [], threshold = Some 2\<rparr>"

section \<open>Auxiliary facts\<close>

subsection \<open>base64 decodes what it encodes\<close>

lemma and3: "(a::byte) AND 3 = take_bit 2 a"
  by (simp add: take_bit_eq_mask mask_eq_exp_minus_1)
lemma and15: "(a::byte) AND 15 = take_bit 4 a"
  by (simp add: take_bit_eq_mask mask_eq_exp_minus_1)
lemma and63: "(a::byte) AND 63 = take_bit 6 a"
  by (simp add: take_bit_eq_mask mask_eq_exp_minus_1)

lemma sextet_bound: assumes "take_bit 6 x = x" shows "unat (x::byte) < 64"
proof -
  have "unat x = unat (take_bit 6 x)" using assms by simp
  also have "\<dots> = take_bit 6 (unat x)" by (simp add: unsigned_take_bit_eq)
  also have "\<dots> < 2 ^ 6" by (rule take_bit_nat_less_exp)
  finally show ?thesis by simp
qed

lemma sextet1: "unat (drop_bit 2 (a::byte)) < 64"
  by (rule sextet_bound) (rule bit_word_eqI, auto simp: bit_simps dest: bit_imp_le_length)
lemma sextet2: "unat (push_bit 4 (a AND 3) OR drop_bit 4 (b::byte)) < 64"
  unfolding and3 by (rule sextet_bound) (rule bit_word_eqI, auto simp: bit_simps dest: bit_imp_le_length)
lemma sextet3: "unat (push_bit 2 (b AND 15) OR drop_bit 6 (c::byte)) < 64"
  unfolding and15 by (rule sextet_bound) (rule bit_word_eqI, auto simp: bit_simps dest: bit_imp_le_length)
lemma sextet4: "unat ((c::byte) AND 63) < 64"
  unfolding and63 by (rule sextet_bound) (rule bit_word_eqI, auto simp: bit_simps dest: bit_imp_le_length)
lemma sextet2': "unat (push_bit 4 ((a::byte) AND 3)) < 64"
  unfolding and3 by (rule sextet_bound) (rule bit_word_eqI, auto simp: bit_simps dest: bit_imp_le_length)
lemma sextet3': "unat (push_bit 2 ((b::byte) AND 15)) < 64"
  unfolding and15 by (rule sextet_bound) (rule bit_word_eqI, auto simp: bit_simps dest: bit_imp_le_length)

lemma Suc_Suc_diff2: "2 \<le> n \<Longrightarrow> Suc (Suc (n - 2)) = n"
  by arith

lemma join1: "push_bit 2 (drop_bit 2 a) OR drop_bit 4 (push_bit 4 (a AND 3) OR drop_bit 4 b) = (a::byte)"
  unfolding and3
  apply (rule bit_word_eqI)
  subgoal for n
    by (cases "2 \<le> n") (auto simp: bit_simps not_less Suc_Suc_diff2)
  done

lemma join1': "push_bit 2 (drop_bit 2 a) OR drop_bit 4 (push_bit 4 (a AND 3)) = (a::byte)"
  unfolding and3
  apply (rule bit_word_eqI)
  subgoal for n
    by (cases "2 \<le> n") (auto simp: bit_simps not_less Suc_Suc_diff2)
  done

lemma join2: "push_bit 4 ((push_bit 4 (a AND 3) OR drop_bit 4 b) AND 15) OR drop_bit 2 (push_bit 2 (b AND 15) OR drop_bit 6 c) = (b::byte)"
  unfolding and3 and15
  by (rule bit_word_eqI) (auto simp: bit_simps)

lemma join2': "push_bit 4 ((push_bit 4 (a AND 3) OR drop_bit 4 b) AND 15) OR drop_bit 2 (push_bit 2 (b AND 15)) = (b::byte)"
  unfolding and3 and15
  by (rule bit_word_eqI) (auto simp: bit_simps)

lemma join3: "push_bit 6 ((push_bit 2 (b AND 15) OR drop_bit 6 c) AND 3) OR (c AND 63) = (c::byte)"
  unfolding and3 and15 and63
  by (rule bit_word_eqI) (auto simp: bit_simps)

lemma table_length: "length table_b2a_base64 = 64"
  by (simp add: table_b2a_base64_def)
lemma table_distinct: "distinct table_b2a_base64"
  by (simp add: table_b2a_base64_def)

lemma a2b_b2a: assumes "unat s < 64" shows "table_a2b_base64 (b2a s) = Some s"
proof -
  have "table_a2b_base64 (table_b2a_base64 ! unat s) = Some (map of_nat [0..<64] ! unat s)"
    unfolding table_a2b_base64_def
    by (rule map_of_zip_nth) (use assms in \<open>simp_all add: table_length table_distinct\<close>)
  then show ?thesis using assms by (simp add: b2a_def)
qed

lemma b2a_in_table: "unat s < 64 \<Longrightarrow> b2a s \<in> set table_b2a_base64"
  by (simp add: b2a_def table_length)

lemma pad_not_in_table: "CHR ''='' \<notin> set table_b2a_base64"
  by (simp add: table_b2a_base64_def)

lemma b2a_not_pad: "unat s < 64 \<Longrightarrow> b2a s \<noteq> CHR ''=''"
  using b2a_in_table pad_not_in_table by metis

lemma table_ascii: "c \<in> set table_b2a_base64 \<Longrightarrow> (of_char c :: nat) < 128"
  by (auto simp: table_b2a_base64_def)

lemmas sextets = sextet1 sextet2 sextet3 sextet4 sextet2' sextet3'

lemma a2b_step4:
  assumes "unat s1 < 64" "unat s2 < 64" "unat s3 < 64" "unat s4 < 64"
  shows "a2b_base64 0 l 0 out (b2a s1 # b2a s2 # b2a s3 # b2a s4 # cs) =
         a2b_base64 0 0 0 (out @ [push_bit 2 s1 OR drop_bit 4 s2,
            push_bit 4 (s2 AND 15) OR drop_bit 2 s3, push_bit 6 (s3 AND 3) OR s4]) cs"
  using assms by (simp add: a2b_b2a b2a_not_pad)

lemma a2b_step3:
  assumes "unat s1 < 64" "unat s2 < 64" "unat s3 < 64"
  shows "a2b_base64 0 l 0 out [b2a s1, b2a s2, b2a s3, CHR ''=''] =
         Inr (out @ [push_bit 2 s1 OR drop_bit 4 s2, push_bit 4 (s2 AND 15) OR drop_bit 2 s3])"
  using assms by (simp add: a2b_b2a b2a_not_pad)

lemma a2b_step2:
  assumes "unat s1 < 64" "unat s2 < 64"
  shows "a2b_base64 0 l 0 out [b2a s1, b2a s2, CHR ''='', CHR ''=''] =
         Inr (out @ [push_bit 2 s1 OR drop_bit 4 s2])"
  using assms by (simp add: a2b_b2a b2a_not_pad)

lemma a2b_base64_b64encode:
  "a2b_base64 0 l 0 out (b64encode bs) = Inr (out @ bs)"
proof (induction bs arbitrary: l out rule: b64encode.induct)
  case 1
  then show ?case by simp
next
  case (2 a)
  show ?case
    unfolding b64encode.simps
    by (subst a2b_step2) (simp_all only: sextets join1')
next
  case (3 a b)
  show ?case
    unfolding b64encode.simps
    by (subst a2b_step3) (simp_all only: sextets join1 join2')
next
  case (4 a b c bs)
  show ?case
    unfolding b64encode.simps append.simps
    by (subst a2b_step4) (simp_all only: sextets join1 join2 join3 4 append_assoc append.simps)
qed

lemma b2a_ascii: "unat s < 64 \<Longrightarrow> (of_char (b2a s) :: nat) < 128"
  by (rule table_ascii) (rule b2a_in_table)

lemma pad_ascii: "(of_char CHR ''='' :: nat) < 128"
  by simp

lemma b64encode_ascii: "c \<in> set (b64encode bs) \<Longrightarrow> (of_char c :: nat) < 128"
proof (induction bs rule: b64encode.induct)
  case 1
  then show ?case by simp
next
  case (2 a)
  then show ?case
    unfolding b64encode.simps using b2a_ascii sextets pad_ascii by (auto simp only: set_simps)
next
  case (3 a b)
  then show ?case
    unfolding b64encode.simps using b2a_ascii sextets pad_ascii by (auto simp only: set_simps)
next
  case (4 a b c bs)
  then show ?case
    unfolding b64encode.simps set_append using b2a_ascii sextets pad_ascii by (auto simp only: set_simps)
qed

lemma b64decode_b64encode: "b64decode (b64encode bs) = Inr bs"
  using b64encode_ascii[of _ bs] by (auto simp: b64decode_def a2b_base64_b64encode not_le[symmetric])

subsection \<open>float32 buffers\<close>

lemma f32_join: "ucast (ucast w :: byte) OR push_bit 8 (ucast (ucast (drop_bit 8 w) :: byte))
          OR push_bit 16 (ucast (ucast (drop_bit 16 w) :: byte))
          OR push_bit 24 (ucast (ucast (drop_bit 24 w) :: byte)) = (w :: float32)"
  apply (rule bit_word_eqI)
  subgoal for n
    apply (cases "n < 8"; cases "n < 16"; cases "n < 24")
    by (auto simp: bit_simps)
  done

lemma f32_words_bytes: "f32_words (f32_bytes w @ bs) = w # f32_words bs"
  by (simp add: f32_bytes_def f32_join)

lemma f32_words_tobytes: "f32_words (tobytes ws) = ws"
  by (induction ws) (simp_all add: tobytes_def f32_words_bytes)

lemma length_tobytes: "length (tobytes ws) = 4 * length ws"
  by (induction ws) (simp_all add: tobytes_def f32_bytes_def)

lemma frombuffer_tobytes: "frombuffer_f32 (tobytes ws) = Inr ws"
  by (simp add: frombuffer_f32_def length_tobytes f32_words_tobytes)

lemma length_f32_words: "length (f32_words raw) = length raw div 4"
  by (induction raw rule: f32_words.induct) simp_all

lemma b64_to_emb_emb_to_b64: "b64_to_emb (emb_to_b64 ws) = Inr (l2_normalize (map f32_val ws))"
  by (simp add: b64_to_emb_def emb_to_b64_def b64decode_b64encode frombuffer_tobytes)

subsection \<open>Norms and the Cauchy-Schwarz inequality\<close>

lemma sumsq_nonneg: "0 \<le> sum_list (map (\<lambda>x. x * x) (v :: real list))"
  by (induction v) simp_all


lemma linalg_norm_Cons: "linalg_norm (x # v) = sqrt (x * x + (linalg_norm v)\<^sup>2)"
  by (simp add: linalg_norm_def sumsq_nonneg)







lemma length_l2_normalize: "length (l2_normalize v) = length v"
  by (simp add: l2_normalize_def)


subsection \<open>The loop and the sort\<close>


lemma template_distance_Inr:
  "template_distance probe t = Inr d \<longleftrightarrow>
     (\<exists>emb. b64_to_emb t = Inr emb \<and> cosine_distance probe emb = Inr d)"
  by (auto simp: template_distance_def split: sum.splits)


lemma hd_filter_index:
  "\<exists>x\<in>set xs. P x \<Longrightarrow>
     \<exists>i<length xs. hd (filter P xs) = xs ! i \<and> P (xs ! i) \<and> (\<forall>j<i. \<not> P (xs ! j))"
proof (induction xs)
  case Nil
  then show ?case by simp
next
  case (Cons x xs)
  show ?case
  proof (cases "P x")
    case True
    then show ?thesis by (intro exI [of _ 0]) simp
  next
    case False
    with Cons obtain i where i: "i < length xs" "hd (filter P xs) = xs ! i" "P (xs ! i)"
      "\<forall>j<i. \<not> P (xs ! j)" by auto
    have "\<forall>j<Suc i. \<not> P ((x # xs) ! j)"
      using i False by (auto simp: nth_Cons split: nat.splits)
    with i False show ?thesis by (intro exI [of _ "Suc i"]) auto
  qed
qed

lemma last_filter_last:
  "xs \<noteq> [] \<Longrightarrow> P (last xs) \<Longrightarrow> last (filter P xs) = last xs"
proof (induction xs)
  case Nil
  then show ?case by simp
next
  case (Cons x xs)
  show ?case
  proof (cases "xs = []")
    case True
    with Cons.prems show ?thesis by simp
  next
    case False
    with Cons.prems have "P (last xs)" by simp
    moreover from False have "last xs \<in> set xs" by simp
    ultimately have "filter P xs \<noteq> []" by (auto simp: filter_empty_conv)
    with Cons False \<open>P (last xs)\<close> show ?thesis by simp
  qed
qed

lemma sorted_le_last:
  fixes xs :: "real list"
  assumes "sorted xs" "x \<in> set xs" shows "x \<le> last xs"
proof -
  from assms have ne: "xs \<noteq> []" by auto
  then have xs: "xs = butlast xs @ [last xs]" by simp
  with assms(1) have "\<forall>a\<in>set (butlast xs). a \<le> last xs"
    by (metis sorted_append list.set_intros(1))
  moreover from assms(2) xs have "x \<in> set (butlast xs) \<or> x = last xs"
    by (metis Un_iff empty_iff empty_set set_ConsD set_append)
  ultimately show ?thesis by auto
qed

lemma sort_reverse_hd:
  fixes key :: "'a \<Rightarrow> real"
  assumes "xs \<noteq> []"
  shows "\<exists>i<length xs. \<exists>rest. sort_reverse key xs = xs ! i # rest \<and>
           (\<forall>x\<in>set xs. key x \<le> key (xs ! i)) \<and> (\<forall>j<i. key (xs ! j) < key (xs ! i))"
proof -
  let ?ys = "sort_key key (rev xs)"
  let ?m = "last ?ys"
  let ?P = "\<lambda>y. key y = key ?m"
  have ne: "?ys \<noteq> []" using assms by (metis length_0_conv length_rev length_sort)
  have set: "set ?ys = set xs" by simp
  have m_in: "?m \<in> set xs" using ne set last_in_set by blast
  have max: "key x \<le> key ?m" if "x \<in> set xs" for x
  proof -
    have "sorted (map key ?ys)" by (rule sorted_sort_key)
    moreover have "key x \<in> set (map key ?ys)" using that by simp
    ultimately have "key x \<le> last (map key ?ys)" by (rule sorted_le_last)
    then show ?thesis using ne by (simp add: last_map)
  qed
  have "?m = last (filter ?P ?ys)" using ne by (simp add: last_filter_last)
  also have "\<dots> = last (filter ?P (rev xs))" by (simp only: sort_key_stable)
  also have "\<dots> = hd (filter ?P xs)"
  proof -
    have "filter ?P xs \<noteq> []" using m_in by (auto simp: filter_empty_conv)
    then show ?thesis by (simp add: rev_filter [symmetric] last_rev)
  qed
  finally have m: "?m = hd (filter ?P xs)" .
  from hd_filter_index [of xs ?P] m_in obtain i where
    i: "i < length xs" "hd (filter ?P xs) = xs ! i" "\<forall>j<i. key (xs ! j) \<noteq> key ?m"
    by blast
  have mi: "?m = xs ! i" using m i by simp
  have "sort_reverse key xs = ?m # rev (butlast ?ys)"
    using ne by (simp add: sort_reverse_def)
  moreover have "\<forall>j<i. key (xs ! j) < key ?m"
  proof (intro allI impI)
    fix j assume "j < i"
    with i have "key (xs ! j) \<noteq> key ?m" "xs ! j \<in> set xs" by auto
    with max [of "xs ! j"] show "key (xs ! j) < key ?m" by simp
  qed
  ultimately show ?thesis using i(1) max mi by auto
qed

subsection \<open>What verify and its parts return\<close>





lemma verify_with_probe:
  assumes "decode_base64_image imdecode (image_base64 req) = Inr img"
    and "get_single_face_embedding face_app_get img = Inr probe"
    and "templates_b64 req \<noteq> []"
  shows "verify imdecode face_app_get req =
           (case verify_loop probe 999 (templates_b64 req) of
              Inl e \<Rightarrow> Inl (HTTPException 400 (Str e))
            | Inr best \<Rightarrow>
                Inr \<lparr>match = best \<le> (case threshold req of Some t \<Rightarrow> t | None \<Rightarrow> DEFAULT_THRESHOLD),
                     best_distance = best,
                     threshold_used = (case threshold req of Some t \<Rightarrow> t | None \<Rightarrow> DEFAULT_THRESHOLD),
                     model = ''insightface/buffalo_l''\<rparr>)"
  using assms by (simp add: verify_def Let_def)

subsection \<open>The example inputs, evaluated\<close>

lemma sqrt_25: "sqrt 25 = 5"
proof -
  have "sqrt (5\<^sup>2) = (5::real)" by (simp only: real_sqrt_abs abs_numeral)
  then show ?thesis by simp
qed

lemma ex_image: "decode_base64_image ex_imdecode ''AAAA'' = Inr [0, 0, 0]"
  by (simp add: decode_base64_image_def strip_def isspace_def startswith_def b64decode_def
      table_a2b_base64_def table_b2a_base64_def upt_rec ex_imdecode_def)

lemma ex_primary: "primary_face ex_faces = Inr (ex_faces ! 1)"
  by (simp add: primary_face_def ex_faces_def sort_reverse_def area_def)

lemma ex_get_probe: "get_single_face_embedding ex_face_app_get img = Inr ex_probe"
  by (simp add: get_single_face_embedding_def ex_face_app_get_def ex_primary)
     (simp add: ex_faces_def l2_normalize_def linalg_norm_def sqrt_25 ex_probe_def)

lemma ex_template_x: "b64_to_emb ''AACAPwAAAAA='' = Inr [1 / (1 + 1 / 10 ^ 9), 0]"
  by (simp add: b64_to_emb_def b64decode_def table_a2b_base64_def table_b2a_base64_def upt_rec
      frombuffer_f32_def f32_val_def l2_normalize_def linalg_norm_def)

lemma ex_template_y: "b64_to_emb ''AAAAAAAAgD8='' = Inr [0, 1 / (1 + 1 / 10 ^ 9)]"
  by (simp add: b64_to_emb_def b64decode_def table_a2b_base64_def table_b2a_base64_def upt_rec
      frombuffer_f32_def f32_val_def l2_normalize_def linalg_norm_def)

lemma ex_distance_x:
  "template_distance ex_probe ''AACAPwAAAAA='' = Inr ex_dx"
  by (simp add: template_distance_def ex_template_x cosine_distance_def np_dot_def ex_probe_def ex_dx_def)


lemma ex_verify:
  "verify ex_imdecode ex_face_app_get ex_req =
     Inr \<lparr>match = True, best_distance = ex_dy,
          threshold_used = 45 / 100, model = ''insightface/buffalo_l''\<rparr>"
  by (simp add: verify_def ex_req_def ex_image ex_get_probe ex_template_x ex_template_y
      cosine_distance_def np_dot_def ex_probe_def DEFAULT_THRESHOLD_def ex_dy_def)


section \<open>The threshold decision\<close>

text \<open>
  C2. Whenever verify answers, the reported match is \<open>best_distance \<le> threshold\<close>: it is
  true when the two are equal, and false exactly when the best distance is strictly
  greater than the threshold.
\<close>

theorem verify_match_inclusive:
  "verify imdecode face_app_get req = Inr res \<Longrightarrow>
     (match res \<longleftrightarrow> best_distance res \<le> threshold_used res) \<and>
     (best_distance res = threshold_used res \<longrightarrow> match res) \<and>
     (\<not> match res \<longleftrightarrow> threshold_used res < best_distance res)"
  by (auto simp: verify_def Let_def split: if_splits sum.splits)

theorem verify_match_inclusive_witness:
  "verify ex_imdecode ex_face_app_get ex_req =
     Inr \<lparr>match = True, best_distance = ex_dy,
          threshold_used = 45 / 100, model = ''insightface/buffalo_l''\<rparr> \<and>
   ex_dy \<le> 45 / 100"
  using verify_match_inclusive [OF ex_verify] ex_verify
  by simp

section \<open>The best match\<close>



section \<open>The primary face\<close>

text \<open>
  C3. On a non-empty list of detections the selection returns a detection whose
  bounding-box area \<open>(x2 - x1) * (y2 - y1)\<close> is maximal, and the earliest one in the
  list among those of maximal area; on an empty list it raises ValueError
  \<open>no face detected\<close> (the spec's NoFaceError).
\<close>

theorem primary_face_largest_earliest:
  "primary_face [] = Inl (ValueError ''no face detected'') \<and>
   (face_app_get img = [] \<longrightarrow>
      get_single_face_embedding face_app_get img = Inl (ValueError ''no face detected'')) \<and>
   (faces \<noteq> [] \<longrightarrow>
      (\<exists>i<length faces. primary_face faces = Inr (faces ! i) \<and>
         (\<forall>f\<in>set faces. area f \<le> area (faces ! i)) \<and>
         (\<forall>j<i. area (faces ! j) < area (faces ! i))))"
proof (intro conjI impI)
  show "primary_face [] = Inl (ValueError ''no face detected'')"
    by (simp add: primary_face_def)
next
  assume "face_app_get img = []"
  then show "get_single_face_embedding face_app_get img = Inl (ValueError ''no face detected'')"
    by (simp add: get_single_face_embedding_def primary_face_def)
next
  assume ne: "faces \<noteq> []"
  from sort_reverse_hd [OF ne, of area] obtain i rest where
    "i < length faces" "sort_reverse area faces = faces ! i # rest"
    "\<forall>x\<in>set faces. area x \<le> area (faces ! i)" "\<forall>j<i. area (faces ! j) < area (faces ! i)"
    by blast
  with ne show "\<exists>i<length faces. primary_face faces = Inr (faces ! i) \<and>
         (\<forall>f\<in>set faces. area f \<le> area (faces ! i)) \<and>
         (\<forall>j<i. area (faces ! j) < area (faces ! i))"
    by (auto simp: primary_face_def)
qed

theorem primary_face_largest_earliest_witness:
  "ex_faces \<noteq> [] \<and>
   (\<exists>i<length ex_faces. primary_face ex_faces = Inr (ex_faces ! i) \<and>
         (\<forall>f\<in>set ex_faces. area f \<le> area (ex_faces ! i)) \<and>
         (\<forall>j<i. area (ex_faces ! j) < area (ex_faces ! i))) \<and>
   primary_face ex_faces = Inr (ex_faces ! 1) \<and>
   map area ex_faces = [100, 400, 400]"
proof -
  have ne: "ex_faces \<noteq> []" by (simp add: ex_faces_def)
  have "map area ex_faces = [100, 400, 400]" by (simp add: ex_faces_def area_def)
  with primary_face_largest_earliest [of "\<lambda>_. []" "()" ex_faces] ne ex_primary
  show ?thesis by blast
qed

section \<open>The normalizer\<close>


lemma sum_list_replicate_0: "sum_list (replicate n (0::real)) = 0"
  by (induction n) simp_all

lemma sumsq_replicate_0: "sum_list (map (\<lambda>x. x * x) (replicate n (0::real))) = 0"
  by (simp only: map_replicate mult_zero_left sum_list_replicate_0)

lemma linalg_norm_replicate_0: "linalg_norm (replicate n 0) = 0"
  by (simp only: linalg_norm_def sumsq_replicate_0 real_sqrt_zero)

lemma linalg_norm_Cons_replicate_0: "linalg_norm (x # replicate n 0) = \<bar>x\<bar>"
  by (simp only: linalg_norm_Cons linalg_norm_replicate_0) (simp add: real_sqrt_abs2)






section \<open>The embedding codec\<close>

lemma scale_close:
  fixes x n e d :: real
  assumes "0 < e" and "d < 1" and "\<bar>n - 1\<bar> \<le> d"
  shows "\<bar>x / (n + e) - x\<bar> \<le> (d + e) / (1 - d) * \<bar>x\<bar>"
proof -
  define c where "c = n + e"
  from assms have c: "1 - d \<le> c" "\<bar>1 - c\<bar> \<le> d + e" unfolding c_def by linarith+
  from assms(2) c(1) have pos: "0 < c" "0 < 1 - d" by linarith+
  have "x / c - x = x * (1 - c) / c" using pos by (simp add: field_simps)
  then have "\<bar>x / c - x\<bar> = \<bar>x\<bar> * \<bar>1 - c\<bar> / c"
    using pos by (simp add: abs_mult)
  also have "\<dots> \<le> \<bar>x\<bar> * \<bar>1 - c\<bar> / (1 - d)"
    by (rule divide_left_mono) (use c(1) pos in simp_all)
  also have "\<dots> \<le> \<bar>x\<bar> * (d + e) / (1 - d)"
    using c(2) pos by (intro divide_right_mono mult_left_mono) simp_all
  finally show ?thesis unfolding c_def by (simp add: mult.commute)
qed

lemma l2_normalize_close:
  assumes "d < 1" and "\<bar>linalg_norm v - 1\<bar> \<le> d" and "i < length v"
  shows "\<bar>l2_normalize v ! i - v ! i\<bar> \<le> (d + 1 / 10 ^ 9) / (1 - d) * \<bar>v ! i\<bar>"
proof -
  have "\<bar>v ! i / (linalg_norm v + 1 / 10 ^ 9) - v ! i\<bar> \<le> (d + 1 / 10 ^ 9) / (1 - d) * \<bar>v ! i\<bar>"
    by (rule scale_close) (use assms(1,2) in simp_all)
  moreover have "l2_normalize v ! i = v ! i / (linalg_norm v + 1 / 10 ^ 9)"
    using assms(3) by (simp add: l2_normalize_def)
  ultimately show ?thesis by simp
qed


text \<open>
  C5. Decoding the encoding of a float32 vector \<open>v\<close> gives exactly the normalization
  of \<open>v\<close>. When \<open>v\<close> has unit norm up to a tolerance \<open>d < 1\<close>, each component
  of the result differs from the component of \<open>v\<close> by at most
  \<open>(d + 1e-9) / (1 - d)\<close> times its magnitude: on a normalized vector the round trip
  changes nothing beyond that.
\<close>

theorem codec_round_trip:
  "b64_to_emb (emb_to_b64 v) = Inr (l2_normalize (map f32_val v)) \<and>
   (d < 1 \<and> \<bar>linalg_norm (map f32_val v) - 1\<bar> \<le> d \<longrightarrow>
      (\<forall>i<length v. \<bar>l2_normalize (map f32_val v) ! i - f32_val (v ! i)\<bar>
                        \<le> (d + 1 / 10 ^ 9) / (1 - d) * \<bar>f32_val (v ! i)\<bar>))"
proof (intro conjI impI allI)
  show "b64_to_emb (emb_to_b64 v) = Inr (l2_normalize (map f32_val v))"
    by (rule b64_to_emb_emb_to_b64)
next
  fix i assume "d < 1 \<and> \<bar>linalg_norm (map f32_val v) - 1\<bar> \<le> d" and "i < length v"
  with l2_normalize_close [of d "map f32_val v" i]
  show "\<bar>l2_normalize (map f32_val v) ! i - f32_val (v ! i)\<bar>
          \<le> (d + 1 / 10 ^ 9) / (1 - d) * \<bar>f32_val (v ! i)\<bar>"
    by simp
qed


lemma f32_val_one: "f32_val 0x3F800000 = 1"
  by (simp add: f32_val_def)

lemma f32_val_zero: "f32_val 0 = 0"
  by (simp add: f32_val_def)

lemma f32_val_below_one: "f32_val 0x3F7FFFFF = 16777215 / 16777216"
  by (simp add: f32_val_def)

theorem codec_round_trip_witness:
  "emb_to_b64 [0x3F7FFFFF, 0] = ''//9/PwAAAAA='' \<and>
   b64_to_emb ''//9/PwAAAAA='' = Inr (l2_normalize [16777215 / 16777216, 0]) \<and>
   (1 / 10 ^ 7 :: real) < 1 \<and>
   \<bar>linalg_norm (map f32_val [0x3F7FFFFF, 0]) - 1\<bar> \<le> 1 / 10 ^ 7 \<and>
   \<bar>l2_normalize [16777215 / 16777216, 0] ! 0 - 16777215 / 16777216\<bar>
      \<le> (1 / 10 ^ 7 + 1 / 10 ^ 9) / (1 - 1 / 10 ^ 7) * \<bar>16777215 / 16777216\<bar>"
proof -
  have enc: "emb_to_b64 [0x3F7FFFFF, 0] = ''//9/PwAAAAA=''"
    by (simp add: emb_to_b64_def tobytes_def f32_bytes_def b2a_def table_b2a_base64_def)
  have vals: "map f32_val [0x3F7FFFFF, 0] = [16777215 / 16777216, 0]"
    by (simp add: f32_val_below_one f32_val_zero)
  have norm: "linalg_norm [16777215 / 16777216, 0] = 16777215 / 16777216"
    using linalg_norm_Cons_replicate_0 [of "16777215 / 16777216" 1] by simp
  have d: "(1 / 10 ^ 7 :: real) < 1" by simp
  have n: "\<bar>linalg_norm (map f32_val [0x3F7FFFFF, 0]) - 1\<bar> \<le> 1 / 10 ^ 7"
    by (simp only: vals norm) simp
  note rt = codec_round_trip [of "[0x3F7FFFFF, 0]" "1 / 10 ^ 7", unfolded vals]
  from rt have a: "b64_to_emb (emb_to_b64 [0x3F7FFFFF, 0]) = Inr (l2_normalize [16777215 / 16777216, 0])"
    by (rule conjunct1)
  from rt d n [unfolded vals]
  have "\<forall>i<length [0x3F7FFFFF :: float32, 0].
          \<bar>l2_normalize [16777215 / 16777216, 0] ! i - f32_val ([0x3F7FFFFF, 0] ! i)\<bar>
            \<le> (1 / 10 ^ 7 + 1 / 10 ^ 9) / (1 - 1 / 10 ^ 7) * \<bar>f32_val ([0x3F7FFFFF, 0] ! i)\<bar>"
    by blast
  moreover have "0 < length [0x3F7FFFFF :: float32, 0]"
    by simp
  ultimately have "\<bar>l2_normalize [16777215 / 16777216, 0] ! 0 - f32_val ([0x3F7FFFFF, 0] ! 0)\<bar>
            \<le> (1 / 10 ^ 7 + 1 / 10 ^ 9) / (1 - 1 / 10 ^ 7) * \<bar>f32_val ([0x3F7FFFFF, 0] ! 0)\<bar>"
    by blast
  then have b: "\<bar>l2_normalize [16777215 / 16777216, 0] ! 0 - 16777215 / 16777216\<bar>
      \<le> (1 / 10 ^ 7 + 1 / 10 ^ 9) / (1 - 1 / 10 ^ 7) * \<bar>16777215 / 16777216\<bar>"
    by (simp only: nth_Cons_0 f32_val_below_one)
  from a have "b64_to_emb ''//9/PwAAAAA='' = Inr (l2_normalize [16777215 / 16777216, 0])"
    by (simp only: enc)
  with enc d n [unfolded vals] b vals show ?thesis by (simp only: vals)
qed

section \<open>A probe as its own template\<close>













section \<open>Templates that do not fit\<close>

lemma verify_loop_fails_at:
  assumes "map (template_distance probe) pre = map Inr ds"
    and "template_distance probe t = Inl e"
  shows "verify_loop probe best (pre @ t # post) = Inl e"
  using assms
proof (induction pre arbitrary: ds best)
  case Nil
  then show ?case by (auto simp: template_distance_def split: sum.splits)
next
  case (Cons p pre)
  from Cons.prems(1) obtain d ds' where "template_distance probe p = Inr d"
    and rest: "map (template_distance probe) pre = map Inr ds'"
    by (cases ds) auto
  then obtain emb where "b64_to_emb p = Inr emb" "cosine_distance probe emb = Inr d"
    by (auto simp: template_distance_Inr)
  with Cons.IH [OF rest Cons.prems(2)] show ?case by simp
qed

lemma verify_loop_Inr_all:
  "verify_loop probe best ts = Inr b \<Longrightarrow> t \<in> set ts \<Longrightarrow> \<exists>d. template_distance probe t = Inr d"
proof (induction ts arbitrary: best)
  case Nil
  then show ?case by simp
next
  case (Cons a ts)
  from Cons.prems(1) obtain emb d where a: "b64_to_emb a = Inr emb" "cosine_distance probe emb = Inr d"
    and rest: "verify_loop probe (if d < best then d else best) ts = Inr b"
    by (auto split: sum.splits)
  show ?case
  proof (cases "t = a")
    case True
    with a show ?thesis by (auto simp: template_distance_Inr)
  next
    case False
    with Cons.prems(2) have "t \<in> set ts" by simp
    with Cons.IH [OF rest] show ?thesis by blast
  qed
qed

lemma verify_Inl_400:
  "verify imdecode face_app_get req = Inl e \<Longrightarrow> \<exists>d. e = HTTPException 400 d"
  by (auto simp: verify_def Let_def split: if_splits sum.splits)

lemma verify_Inr_loop:
  assumes "verify imdecode face_app_get req = Inr res"
  shows "\<exists>img probe b. get_single_face_embedding face_app_get img = Inr probe \<and>
           verify_loop probe 999 (templates_b64 req) = Inr b"
  using assms by (auto simp: verify_def Let_def split: if_splits sum.splits)

lemma verify_fails_if_template_fails:
  assumes "t \<in> set (templates_b64 req)"
    and "\<And>img probe. get_single_face_embedding face_app_get img = Inr probe \<Longrightarrow>
            \<exists>e. template_distance probe t = Inl e"
  shows "\<exists>d. verify imdecode face_app_get req = Inl (HTTPException 400 d)"
proof (cases "verify imdecode face_app_get req")
  case (Inl e)
  with verify_Inl_400 [OF Inl] show ?thesis by auto
next
  case (Inr res)
  from verify_Inr_loop [OF Inr] obtain img probe b where
    p: "get_single_face_embedding face_app_get img = Inr probe"
    and l: "verify_loop probe 999 (templates_b64 req) = Inr b" by blast
  from verify_loop_Inr_all [OF l assms(1)] obtain d where "template_distance probe t = Inr d"
    by blast
  with assms(2) [OF p] show ?thesis by auto
qed

lemma verify_fails_at:
  assumes "decode_base64_image imdecode (image_base64 req) = Inr img"
    and "get_single_face_embedding face_app_get img = Inr probe"
    and "templates_b64 req = pre @ t # post"
    and "map (template_distance probe) pre = map Inr ds"
    and "template_distance probe t = Inl e"
  shows "verify imdecode face_app_get req = Inl (HTTPException 400 (Str e))"
proof -
  have ne: "templates_b64 req \<noteq> []" by (simp add: assms(3))
  have "verify_loop probe 999 (templates_b64 req) = Inl e"
    unfolding assms(3) by (rule verify_loop_fails_at [OF assms(4,5)])
  with verify_with_probe [OF assms(1,2) ne] show ?thesis by simp
qed

lemma get_single_face_embedding_nonempty:
  "get_single_face_embedding face_app_get img = Inr probe \<Longrightarrow> length probe \<noteq> 0"
  by (auto simp: get_single_face_embedding_def l2_normalize_def
      split: sum.splits option.splits if_splits)

text \<open>
  C7. A template whose base64 payload decodes to a number of bytes that is not a
  multiple of 4 (odd or even) does not decode: \<open>b64_to_emb\<close> raises the ValueError of
  \<open>np.frombuffer\<close> (the spec's CodecError). A verify request that holds such a template
  never answers with an outcome: it fails with status 400, and when the probe is found
  and the templates before it are good, the failure carries that ValueError.
\<close>

theorem template_length_not_multiple_of_4:
  assumes "b64decode t = Inr raw" and "length raw mod 4 \<noteq> 0"
  shows "b64_to_emb t = Inl BufferSizeError \<and>
    (t \<in> set (templates_b64 req) \<longrightarrow>
       (\<exists>d. verify imdecode face_app_get req = Inl (HTTPException 400 d))) \<and>
    (decode_base64_image imdecode (image_base64 req) = Inr img \<and>
     get_single_face_embedding face_app_get img = Inr probe \<and>
     templates_b64 req = pre @ t # post \<and>
     map (template_distance probe) pre = map Inr ds \<longrightarrow>
       verify imdecode face_app_get req = Inl (HTTPException 400 (Str BufferSizeError)))"
proof -
  have emb: "b64_to_emb t = Inl BufferSizeError"
    using assms by (simp add: b64_to_emb_def frombuffer_f32_def)
  then have td: "template_distance p t = Inl BufferSizeError" for p
    by (simp add: template_distance_def)
  have "\<exists>d. verify imdecode face_app_get req = Inl (HTTPException 400 d)"
    if "t \<in> set (templates_b64 req)"
    using that by (rule verify_fails_if_template_fails) (simp add: td)
  moreover have "verify imdecode face_app_get req = Inl (HTTPException 400 (Str BufferSizeError))"
    if "decode_base64_image imdecode (image_base64 req) = Inr img"
      "get_single_face_embedding face_app_get img = Inr probe"
      "templates_b64 req = pre @ t # post"
      "map (template_distance probe) pre = map Inr ds"
    using that td by (rule verify_fails_at)
  ultimately show ?thesis using emb by blast
qed

lemma ex_six_bytes: "b64decode ''AAAAAAAA'' = Inr [0, 0, 0, 0, 0, 0]"
  by (simp add: b64decode_def table_a2b_base64_def table_b2a_base64_def upt_rec)

theorem template_length_not_multiple_of_4_witness:
  "b64decode ''AAAAAAAA'' = Inr [0, 0, 0, 0, 0, 0] \<and>
   length [0, 0, 0, 0, 0, 0 :: byte] mod 4 \<noteq> 0 \<and>
   b64_to_emb ''AAAAAAAA'' = Inl BufferSizeError \<and>
   templates_b64 ex_six_req = [''AACAPwAAAAA=''] @ ''AAAAAAAA'' # [] \<and>
   verify ex_imdecode ex_face_app_get ex_six_req = Inl (HTTPException 400 (Str BufferSizeError))"
proof -
  have len: "length [0, 0, 0, 0, 0, 0 :: byte] mod 4 \<noteq> 0" by simp
  have h1: "decode_base64_image ex_imdecode (image_base64 ex_six_req) = Inr [0, 0, 0]"
    by (simp add: ex_six_req_def ex_image)
  have h2: "get_single_face_embedding ex_face_app_get [0, 0, 0] = Inr ex_probe"
    by (rule ex_get_probe)
  have h3: "templates_b64 ex_six_req = [''AACAPwAAAAA=''] @ ''AAAAAAAA'' # []"
    by (simp add: ex_six_req_def)
  have h4: "map (template_distance ex_probe) [''AACAPwAAAAA=''] = map Inr [ex_dx]"
    by (simp add: ex_distance_x)
  from template_length_not_multiple_of_4 [OF ex_six_bytes len,
      of ex_six_req ex_imdecode ex_face_app_get "[0, 0, 0]" ex_probe "[''AACAPwAAAAA='']" "[]" "[ex_dx]"]
    h1 h2 h3 h4 ex_six_bytes len
  show ?thesis by blast
qed

section \<open>No templates\<close>

text \<open>
  C8. A verify request with an empty template list fails with status 400 and detail
  \<open>no templates\<close> (the spec's NoTemplatesError), whatever the image payload, the image
  decoder and the detector are: none of them is consulted.
\<close>

theorem verify_no_templates:
  "templates_b64 req = [] \<Longrightarrow>
     verify imdecode face_app_get (req\<lparr>image_base64 := payload\<rparr>) =
       Inl (HTTPException 400 (Text ''no templates''))"
  by (simp add: verify_def)

lemma ex_bad_image: "decode_base64_image ex_imdecode ''A'' = Inl (BinasciiError Invalid_length)"
  by (simp add: decode_base64_image_def strip_def isspace_def startswith_def b64decode_def
      table_a2b_base64_def table_b2a_base64_def upt_rec)

theorem verify_no_templates_witness:
  "templates_b64 ex_no_templates_req = [] \<and>
   verify ex_imdecode ex_face_app_get (ex_no_templates_req\<lparr>image_base64 := ''A''\<rparr>) =
     Inl (HTTPException 400 (Text ''no templates'')) \<and>
   verify ex_imdecode ex_face_app_get (ex_no_templates_req\<lparr>image_base64 := ''AAAA''\<rparr>) =
     Inl (HTTPException 400 (Text ''no templates'')) \<and>
   decode_base64_image ex_imdecode ''A'' = Inl (BinasciiError Invalid_length)"
proof -
  have h: "templates_b64 ex_no_templates_req = []" by (simp add: ex_no_templates_req_def)
  from verify_no_templates [OF h, of ex_imdecode ex_face_app_get "''A''"]
    verify_no_templates [OF h, of ex_imdecode ex_face_app_get "''AAAA''"] h ex_bad_image
  show ?thesis by blast
qed

section \<open>Templates of another length\<close>

text \<open>
  C9. A template whose base64 payload decodes to a multiple of 4 bytes always decodes,
  to as many floats as a quarter of its bytes, with no check against the probe's length.
  When that count differs from the probe's length, the distance raises the ValueError of
  \<open>np.dot\<close> and verify fails with status 400 instead of answering; the empty string
  decodes to zero floats and fails so against every probe.
\<close>

theorem template_of_other_length:
  assumes "b64decode t = Inr raw" and "length raw mod 4 = 0"
  shows "(\<exists>emb. b64_to_emb t = Inr emb \<and> length emb = length raw div 4) \<and>
    (length probe \<noteq> length raw div 4 \<longrightarrow>
       template_distance probe t = Inl (ShapeError (length probe) (length raw div 4))) \<and>
    (decode_base64_image imdecode (image_base64 req) = Inr img \<and>
     get_single_face_embedding face_app_get img = Inr probe \<and>
     length probe \<noteq> length raw div 4 \<and>
     templates_b64 req = pre @ t # post \<and>
     map (template_distance probe) pre = map Inr ds \<longrightarrow>
       verify imdecode face_app_get req =
         Inl (HTTPException 400 (Str (ShapeError (length probe) (length raw div 4))))) \<and>
    (raw = [] \<and> t \<in> set (templates_b64 req) \<longrightarrow>
       (\<exists>d. verify imdecode face_app_get req = Inl (HTTPException 400 d)))"
proof -
  let ?emb = "l2_normalize (map f32_val (f32_words raw))"
  have emb: "b64_to_emb t = Inr ?emb"
    using assms by (simp add: b64_to_emb_def frombuffer_f32_def)
  have len: "length ?emb = length raw div 4"
    by (simp add: length_l2_normalize length_f32_words)
  have td: "template_distance p t = Inl (ShapeError (length p) (length raw div 4))"
    if "length p \<noteq> length raw div 4" for p
    using that by (simp add: template_distance_def emb cosine_distance_def np_dot_def len)
  have c3: "verify imdecode face_app_get req =
         Inl (HTTPException 400 (Str (ShapeError (length probe) (length raw div 4))))"
    if "decode_base64_image imdecode (image_base64 req) = Inr img"
      "get_single_face_embedding face_app_get img = Inr probe"
      "length probe \<noteq> length raw div 4"
      "templates_b64 req = pre @ t # post"
      "map (template_distance probe) pre = map Inr ds"
    using that(1,2,4,5) td [OF that(3)] by (rule verify_fails_at)
  have c4: "\<exists>d. verify imdecode face_app_get req = Inl (HTTPException 400 d)"
    if "raw = []" "t \<in> set (templates_b64 req)"
  proof (rule verify_fails_if_template_fails [OF that(2)])
    fix img' :: 'a and probe'
    assume "get_single_face_embedding face_app_get img' = Inr probe'"
    then have "length probe' \<noteq> 0" by (rule get_single_face_embedding_nonempty)
    with that(1) have "length probe' \<noteq> length raw div 4" by simp
    from td [OF this] show "\<exists>e. template_distance probe' t = Inl e" by blast
  qed
  from emb len td [of probe] c3 c4 show ?thesis by blast
qed

lemma ex_empty_bytes: "b64decode [] = Inr []"
  by (simp add: b64decode_def)

theorem template_of_other_length_witness:
  "b64decode [] = Inr [] \<and>
   length ([] :: byte list) mod 4 = 0 \<and>
   b64_to_emb [] = Inr [] \<and>
   length ex_probe = 2 \<and>
   templates_b64 ex_empty_template_req = [''AACAPwAAAAA=''] @ [] # [] \<and>
   verify ex_imdecode ex_face_app_get ex_empty_template_req =
     Inl (HTTPException 400 (Str (ShapeError 2 0)))"
proof -
  have len: "length ([] :: byte list) mod 4 = 0" by simp
  have h1: "decode_base64_image ex_imdecode (image_base64 ex_empty_template_req) = Inr [0, 0, 0]"
    by (simp add: ex_empty_template_req_def ex_image)
  have h2: "get_single_face_embedding ex_face_app_get [0, 0, 0] = Inr ex_probe"
    by (rule ex_get_probe)
  have h3: "templates_b64 ex_empty_template_req = [''AACAPwAAAAA=''] @ [] # []"
    by (simp add: ex_empty_template_req_def)
  have h4: "map (template_distance ex_probe) [''AACAPwAAAAA=''] = map Inr [ex_dx]"
    by (simp add: ex_distance_x)
  have h5: "length ex_probe = 2" by (simp add: ex_probe_def)
  then have h6: "length ex_probe \<noteq> length ([] :: byte list) div 4" by simp
  note t = template_of_other_length [OF ex_empty_bytes len,
      of ex_probe ex_imdecode ex_empty_template_req "[0, 0, 0]" ex_face_app_get
         "[''AACAPwAAAAA='']" "[]" "[ex_dx]"]
  from t obtain emb where e: "b64_to_emb [] = Inr emb" "length emb = length ([] :: byte list) div 4"
    by blast
  then have e': "b64_to_emb [] = Inr []" by simp
  from t h1 h2 h3 h4 h6 have "verify ex_imdecode ex_face_app_get ex_empty_template_req =
         Inl (HTTPException 400 (Str (ShapeError (length ex_probe) (length ([] :: byte list) div 4))))"
    by blast
  then have "verify ex_imdecode ex_face_app_get ex_empty_template_req =
     Inl (HTTPException 400 (Str (ShapeError 2 0)))"
    by (simp add: h5)
  with ex_empty_bytes len e' h5 h3 show ?thesis by blast
qed

section \<open>The threshold is taken as given\<close>

text \<open>
  C10. The threshold is not validated: the outcome of verify under any threshold, absent
  or any real number, is the outcome under an absent threshold with the match recomputed
  as \<open>best_distance \<le> threshold\<close> and the threshold reported as supplied (0.45 when
  absent). A request fails under one threshold exactly when it fails under every other,
  with the same error.
\<close>

theorem verify_threshold_unchecked:
  "verify imdecode face_app_get (req\<lparr>threshold := t\<rparr>) =
     (case verify imdecode face_app_get (req\<lparr>threshold := None\<rparr>) of
        Inl e \<Rightarrow> Inl e
      | Inr res \<Rightarrow>
          Inr (res\<lparr>match := best_distance res \<le> (case t of Some x \<Rightarrow> x | None \<Rightarrow> 45 / 100),
                   threshold_used := (case t of Some x \<Rightarrow> x | None \<Rightarrow> 45 / 100)\<rparr>))"
  by (simp add: verify_def Let_def DEFAULT_THRESHOLD_def split: sum.splits option.splits)

theorem verify_threshold_unchecked_witness:
  "verify ex_imdecode ex_face_app_get (ex_req\<lparr>threshold := Some (- 1)\<rparr>) =
     Inr \<lparr>match = False, best_distance = ex_dy, threshold_used = - 1,
          model = ''insightface/buffalo_l''\<rparr> \<and>
   verify ex_imdecode ex_face_app_get (ex_req\<lparr>threshold := Some 1000\<rparr>) =
     Inr \<lparr>match = True, best_distance = ex_dy, threshold_used = 1000,
          model = ''insightface/buffalo_l''\<rparr> \<and>
   verify ex_imdecode ex_face_app_get (ex_req\<lparr>threshold := None\<rparr>) =
     Inr \<lparr>match = True, best_distance = ex_dy, threshold_used = 45 / 100,
          model = ''insightface/buffalo_l''\<rparr>"
proof -
  have none: "ex_req\<lparr>threshold := None\<rparr> = ex_req" by (simp add: ex_req_def)
  have lo: "\<not> ex_dy \<le> - 1" and hi: "ex_dy \<le> 1000" by (simp_all add: ex_dy_def)
  from verify_threshold_unchecked [where imdecode = ex_imdecode and face_app_get = ex_face_app_get
      and req = ex_req and t = "Some (- 1)"]
    verify_threshold_unchecked [where imdecode = ex_imdecode and face_app_get = ex_face_app_get
      and req = ex_req and t = "Some 1000"]
    lo hi
  show ?thesis by (simp add: none ex_verify)
qed

end
